theory Spec2Isabelle
  imports Complex_Main "HOL-Library.Multiset" "HOL-Library.Char_ord" "HOL-Library.List_Lexorder"
begin

section \<open>The AQI engine of app.py\<close>

text \<open>
  The dashboard computes an air quality index from pollutant concentrations:
  \<^verbatim>\<open>calculate_aqi_subindex\<close> interpolates a concentration in a table of breakpoint
  bands, \<^verbatim>\<open>get_aqi_category\<close> names the severity of an index, and
  \<^verbatim>\<open>update_info_panel\<close> keeps the latest reading of every parameter of a location
  and takes the largest sub-index.

  Python floats are read as real numbers and every decimal literal of the source as the
  decimal it writes (\<open>12.1\<close> is \<open>121 / 10\<close>). The comparisons of the source are
  then the comparisons of \<open>real\<close>; the integers of the tables that are compared with a
  float are reals as well. Exceptions are values of the type \<open>error\<close>.
\<close>

subsection \<open>Breakpoint tables\<close>

datatype error = ZeroDivisionError | IndexError | EmptyFrame

text \<open>A band is the tuple \<open>(Clow, Chigh, Ilow, Ihigh)\<close> of the source.\<close>

type_synonym band = "real \<times> real \<times> int \<times> int"

definition breakpoints :: "string \<rightharpoonup> band list" where
  "breakpoints = map_of
    [(''PM2.5'',
        [(0, 12, 0, 50),
         (121 / 10, 354 / 10, 51, 100),
         (355 / 10, 554 / 10, 101, 150),
         (555 / 10, 1504 / 10, 151, 200),
         (1505 / 10, 2504 / 10, 201, 300),
         (2505 / 10, 3504 / 10, 301, 400),
         (3505 / 10, 5004 / 10, 401, 500)]),
     (''PM10'',
        [(0, 54, 0, 50),
         (55, 154, 51, 100),
         (155, 254, 101, 150),
         (255, 354, 151, 200),
         (355, 424, 201, 300),
         (425, 504, 301, 400),
         (505, 604, 401, 500)]),
     (''CO'',
        [(0, 44 / 10, 0, 50),
         (45 / 10, 94 / 10, 51, 100),
         (95 / 10, 124 / 10, 101, 150),
         (125 / 10, 154 / 10, 151, 200),
         (155 / 10, 304 / 10, 201, 300),
         (305 / 10, 404 / 10, 301, 400),
         (405 / 10, 504 / 10, 401, 500)]),
     (''O3'',
        [(0, 54, 0, 50),
         (55, 70, 51, 100),
         (71, 85, 101, 150),
         (86, 105, 151, 200),
         (106, 200, 201, 300)]),
     (''NO2'',
        [(0, 53, 0, 50),
         (54, 100, 51, 100),
         (101, 360, 101, 150),
         (361, 649, 151, 200),
         (650, 1249, 201, 300),
         (1250, 1649, 301, 400),
         (1650, 2049, 401, 500)]),
     (''SO2'',
        [(0, 35, 0, 50),
         (36, 75, 51, 100),
         (76, 185, 101, 150),
         (186, 304, 151, 200),
         (305, 604, 201, 300),
         (605, 804, 301, 400),
         (805, 1004, 401, 500)])]"

subsection \<open>The sub-index\<close>

text \<open>
  Python's \<^verbatim>\<open>round\<close> of a float gives the nearest integer, and the even one of the
  two when the float lies half way between them.
\<close>

definition py_round :: "real \<Rightarrow> int" where
  "py_round x =
     (let f = \<lfloor>x\<rfloor>; d = x - of_int f
      in if d < 1 / 2 then f
         else if 1 / 2 < d then f + 1
         else if even f then f else f + 1)"

text \<open>
  The interpolation of one band,
  \<^verbatim>\<open>round(((Ihigh - Ilow) / (Chigh - Clow)) * (value - Clow) + Ilow)\<close>.
  The division raises when the band has no width.
\<close>

fun interpolate :: "band \<Rightarrow> real \<Rightarrow> error + int" where
  "interpolate (Clow, Chigh, Ilow, Ihigh) v =
     (if Chigh - Clow = 0 then Inl ZeroDivisionError
      else Inr (py_round ((of_int (Ihigh - Ilow) / (Chigh - Clow)) * (v - Clow) + of_int Ilow)))"

text \<open>
  The loop over \<^verbatim>\<open>enumerate(breakpoints[parameter])\<close>: \<open>n\<close> is the length of the
  whole table and \<open>i\<close> the index of the band at the head of the list. \<open>Some\<close> is a
  \<^verbatim>\<open>return\<close> from inside the loop, \<open>None\<close> is the loop running to its end.
\<close>

fun scan_bands :: "nat \<Rightarrow> nat \<Rightarrow> band list \<Rightarrow> real \<Rightarrow> (error + int) option" where
  "scan_bands n i [] v = None"
| "scan_bands n i ((Clow, Chigh, Ilow, Ihigh) # rest) v =
     (if int i = int n - 1 then
        (if Clow \<le> v \<and> v \<le> Chigh then Some (interpolate (Clow, Chigh, Ilow, Ihigh) v)
         else scan_bands n (i + 1) rest v)
      else
        (if Clow \<le> v \<and> v < Chigh then Some (interpolate (Clow, Chigh, Ilow, Ihigh) v)
         else scan_bands n (i + 1) rest v))"

text \<open>The two assignments that rescale the value before the table is consulted.\<close>

definition normalized :: "real \<Rightarrow> string \<Rightarrow> real" where
  "normalized v parameter =
     (let v = (if parameter = ''CO'' then v / 1000 else v);
          v = (if parameter = ''O3'' then v / 2 else v)
      in v)"

text \<open>\<^verbatim>\<open>breakpoints[parameter][-1][3]\<close>, which raises on an empty table.\<close>

definition last_Ihigh :: "band list \<Rightarrow> error + int" where
  "last_Ihigh bps = (if bps = [] then Inl IndexError else Inr (snd (snd (snd (last bps)))))"

definition calculate_aqi_subindex :: "real \<Rightarrow> string \<Rightarrow> error + int" where
  "calculate_aqi_subindex v parameter =
     (let v = normalized v parameter
      in case breakpoints parameter of
           None \<Rightarrow> Inr 0
         | Some bps \<Rightarrow>
             (case scan_bands (length bps) 0 bps v of
                Some r \<Rightarrow> r
              | None \<Rightarrow> last_Ihigh bps))"

subsection \<open>Categories\<close>

definition get_aqi_category :: "int \<Rightarrow> string \<times> string" where
  "get_aqi_category aqi_value =
     (if aqi_value \<le> 50 then
        (''Good'', ''The air is fresh and free from toxins. Enjoy outdoor activities without any health concerns.'')
      else if 51 \<le> aqi_value \<and> aqi_value \<le> 100 then
        (''Moderate'', ''Air quality is acceptable for most, but sensitive individuals might experience mild discomfort.'')
      else if 101 \<le> aqi_value \<and> aqi_value \<le> 150 then
        (''Poor'', ''Breathing may become slightly uncomfortable, especially for those with respiratory issues.'')
      else if 151 \<le> aqi_value \<and> aqi_value \<le> 200 then
        (''Unhealthy'', ''This air quality is particularly risky for children, pregnant women, and the elderly. Limit outdoor activities.'')
      else if 201 \<le> aqi_value \<and> aqi_value \<le> 300 then
        (''Severe'', ''Prolonged exposure can cause chronic health issues or organ damage. Avoid outdoor activities.'')
      else
        (''Hazardous'', ''Dangerously high pollution levels. Life-threatening health risks with prolonged exposure. Stay indoors and take precautions.''))"

subsection \<open>The latest reading of every parameter\<close>

text \<open>
  A row of the frame that \<^verbatim>\<open>fetch_location_data\<close> returns, with the columns the
  computation reads. The timestamp is a point on the UTC time line. Every cell holds a
  value: a row has no missing column.
\<close>

record reading =
  datetime_utc :: int
  parameter :: string
  reading_value :: real
  unit_name :: string

definition parameter_mapping :: "string \<rightharpoonup> string" where
  "parameter_mapping = map_of
    [(''pm25'', ''PM2.5''),
     (''pm10'', ''PM10''),
     (''no2'', ''NO2''),
     (''co'', ''CO''),
     (''so2'', ''SO2''),
     (''o3'', ''O3''),
     (''rh'', ''Relative Humidity'')]"

text \<open>
  \<^verbatim>\<open>location_data['parameter'].map(parameter_mapping).fillna(location_data['parameter'])\<close>,
  on one row.
\<close>

definition map_parameter :: "reading \<Rightarrow> reading" where
  "map_parameter row =
     (case parameter_mapping (parameter row) of
        Some name \<Rightarrow> row\<lparr>parameter := name\<rparr>
      | None \<Rightarrow> row)"

text \<open>
  \<^verbatim>\<open>groupby('parameter').last().reset_index()\<close>: one row for every parameter of the
  frame, the groups in the order of their keys, each group giving the row that stands last
  in it. The filter below is never empty, since \<open>p\<close> is the parameter of a row.
\<close>

definition groupby_last :: "reading list \<Rightarrow> reading list" where
  "groupby_last rows =
     map (\<lambda>p. last (filter (\<lambda>row. parameter row = p) rows))
       (sort (remdups (map parameter rows)))"

text \<open>
  \<^verbatim>\<open>location_data.sort_values('datetime_utc').groupby('parameter').last().reset_index()\<close>.
  The sort is written as the stable insertion sort of the library. The order that pandas
  gives to rows of equal timestamp is not used below: what is proved about
  \<open>groupby_last\<close> holds for every sorted arrangement of the rows.
\<close>

definition latest_data :: "reading list \<Rightarrow> reading list" where
  "latest_data location_data = groupby_last (sort_key datetime_utc location_data)"

subsection \<open>The overall index\<close>

text \<open>
  The column \<^verbatim>\<open>latest_data['aqi_subindex']\<close>: the sub-index of every row, in the
  order of the rows. An exception in one row ends the computation.
\<close>

fun aqi_subindex :: "reading list \<Rightarrow> error + int list" where
  "aqi_subindex [] = Inr []"
| "aqi_subindex (row # rows) =
     (case calculate_aqi_subindex (reading_value row) (parameter row) of
        Inl e \<Rightarrow> Inl e
      | Inr s \<Rightarrow> (case aqi_subindex rows of Inl e \<Rightarrow> Inl e | Inr ss \<Rightarrow> Inr (s # ss)))"

text \<open>
  \<^verbatim>\<open>latest_data['aqi_subindex'].max()\<close>. The callback returns before this line
  when the frame is empty, so the maximum of a column without rows is written as the
  error \<open>EmptyFrame\<close>.
\<close>

definition current_aqi :: "reading list \<Rightarrow> error + int" where
  "current_aqi latest =
     (case aqi_subindex latest of
        Inl e \<Rightarrow> Inl e
      | Inr [] \<Rightarrow> Inl EmptyFrame
      | Inr (s # ss) \<Rightarrow> Inr (fold max ss s))"

text \<open>The index and its category, as the panel shows them.\<close>

datatype panel = No_Data | Aqi_Panel int string string

definition aqi_panel :: "reading list \<Rightarrow> error + panel" where
  "aqi_panel latest =
     (case current_aqi latest of
        Inl e \<Rightarrow> Inl e
      | Inr aqi \<Rightarrow>
          (case get_aqi_category aqi of
             (category, description) \<Rightarrow> Inr (Aqi_Panel aqi category description)))"

text \<open>
  The part of the callback that computes: the return on an empty frame, the display names
  of the parameters, the latest rows and their index.
\<close>

definition update_info_panel :: "reading list \<Rightarrow> error + panel" where
  "update_info_panel location_data =
     (if location_data = [] then Inr No_Data
      else aqi_panel (latest_data (map map_parameter location_data)))"

subsection \<open>Properties of tables\<close>

text \<open>The four components of a band.\<close>


definition Clow :: "band \<Rightarrow> real" where "Clow b = fst b"
definition Chigh :: "band \<Rightarrow> real" where "Chigh b = fst (snd b)"
definition Ilow :: "band \<Rightarrow> int" where "Ilow b = fst (snd (snd b))"
definition Ihigh :: "band \<Rightarrow> int" where "Ihigh b = snd (snd (snd b))"

text \<open>
  What the proofs below use of a table: every band has a positive width, starts at a
  concentration that is not negative and maps to an index range that is not negative and
  not reversed; a band ends, in concentration and in index, where the bands after it start
  or earlier.
\<close>

definition band_ok :: "band \<Rightarrow> bool" where
  "band_ok b = (0 \<le> Clow b \<and> Clow b < Chigh b \<and> 0 \<le> Ilow b \<and> Ilow b \<le> Ihigh b)"

definition band_before :: "band \<Rightarrow> band \<Rightarrow> bool" where
  "band_before b c = (Chigh b \<le> Clow c \<and> Ihigh b \<le> Ilow c)"

definition bands_ok :: "band list \<Rightarrow> bool" where
  "bands_ok bps = (bps \<noteq> [] \<and> list_all band_ok bps \<and> sorted_wrt band_before bps)"

text \<open>
  A value lies in a band when one of the tests of the loop accepts it: the half-open test
  \<^verbatim>\<open>Clow <= value < Chigh\<close> of a band that is not the last, or the closed test of the
  last band.
\<close>

definition in_band :: "band list \<Rightarrow> real \<Rightarrow> bool" where
  "in_band bps x =
     ((\<exists>b\<in>set (butlast bps). Clow b \<le> x \<and> x < Chigh b) \<or>
      (bps \<noteq> [] \<and> Clow (last bps) \<le> x \<and> x \<le> Chigh (last bps)))"

subsection \<open>The sub-index of a row\<close>

text \<open>
  The entry of the column \<open>aqi_subindex\<close> for one row, as a number. The computation
  returns for every row (lemma \<open>subindex_bounds\<close>); the branch for an exception is
  there to make the function total.
\<close>

definition row_subindex :: "reading \<Rightarrow> int" where
  "row_subindex row =
     (case calculate_aqi_subindex (reading_value row) (parameter row) of
        Inr s \<Rightarrow> s
      | Inl e \<Rightarrow> 0)"

subsection \<open>The categories as the specification lists them\<close>

text \<open>
  The ranges of the specification, against which \<open>get_aqi_category\<close> is compared:
  0 to 50 Good, 51 to 100 Moderate, 101 to 150 Poor, 151 to 200 Unhealthy, 201 to 300
  Severe, 301 and above Hazardous.
\<close>

definition category_matches :: "string \<Rightarrow> int \<Rightarrow> bool" where
  "category_matches c a =
     (c = ''Good'' \<and> 0 \<le> a \<and> a \<le> 50 \<or>
      c = ''Moderate'' \<and> 51 \<le> a \<and> a \<le> 100 \<or>
      c = ''Poor'' \<and> 101 \<le> a \<and> a \<le> 150 \<or>
      c = ''Unhealthy'' \<and> 151 \<le> a \<and> a \<le> 200 \<or>
      c = ''Severe'' \<and> 201 \<le> a \<and> a \<le> 300 \<or>
      c = ''Hazardous'' \<and> 301 \<le> a)"

section \<open>Rounding and interpolation\<close>

lemma py_round_of_int: "py_round (of_int k) = k"
  by (simp add: py_round_def)

lemma py_round_range: "\<lfloor>x\<rfloor> \<le> py_round x \<and> py_round x \<le> \<lfloor>x\<rfloor> + 1"
  by (simp add: py_round_def Let_def)

lemma py_round_mono:
  assumes "x \<le> y"
  shows "py_round x \<le> py_round y"
proof (cases "\<lfloor>x\<rfloor> = \<lfloor>y\<rfloor>")
  case True
  with assms show ?thesis
    by (auto simp: py_round_def Let_def)
next
  case False
  with assms have "\<lfloor>x\<rfloor> + 1 \<le> \<lfloor>y\<rfloor>"
    using floor_mono [of x y] by linarith
  with py_round_range [of x] py_round_range [of y] show ?thesis
    by linarith
qed

lemma py_round_between:
  assumes "of_int a \<le> x" and "x \<le> of_int b"
  shows "a \<le> py_round x \<and> py_round x \<le> b"
  using py_round_mono [OF assms(1)] py_round_mono [OF assms(2)]
  by (simp add: py_round_of_int)

lemma interpolate_between:
  assumes "Clow b < Chigh b" and "Ilow b \<le> Ihigh b" and "Clow b \<le> v" and "v \<le> Chigh b"
  shows "\<exists>k. interpolate b v = Inr k \<and> Ilow b \<le> k \<and> k \<le> Ihigh b"
proof -
  obtain cl ch il ih where b: "b = (cl, ch, il, ih)"
    by (cases b) auto
  from assms have w: "0 < ch - cl" and i: "il \<le> ih" and lo: "0 \<le> v - cl" and hi: "v - cl \<le> ch - cl"
    by (simp_all add: b Clow_def Chigh_def Ilow_def Ihigh_def)
  define s where "s = of_int (ih - il) / (ch - cl)"
  have s0: "0 \<le> s"
    using w i by (simp add: s_def)
  have "s * (v - cl) \<le> s * (ch - cl)"
    using s0 hi by (rule mult_left_mono[rotated])
  also have "s * (ch - cl) = of_int (ih - il)"
    using w by (simp add: s_def)
  finally have up: "s * (v - cl) + of_int il \<le> of_int ih"
    by simp
  have "0 \<le> s * (v - cl)"
    using s0 lo by simp
  then have low: "of_int il \<le> s * (v - cl) + of_int il"
    by simp
  from py_round_between [OF low up] w show ?thesis
    by (simp add: b s_def Ilow_def Ihigh_def)
qed

lemma interpolate_mono:
  assumes "Clow b < Chigh b" and "Ilow b \<le> Ihigh b" and "v1 \<le> v2"
    and "interpolate b v1 = Inr k1" and "interpolate b v2 = Inr k2"
  shows "k1 \<le> k2"
proof -
  obtain cl ch il ih where b: "b = (cl, ch, il, ih)"
    by (cases b) auto
  from assms have w: "0 < ch - cl" and i: "il \<le> ih"
    by (simp_all add: b Clow_def Chigh_def Ilow_def Ihigh_def)
  define s where "s = of_int (ih - il) / (ch - cl)"
  have s0: "0 \<le> s"
    using w i by (simp add: s_def)
  have "s * (v1 - cl) \<le> s * (v2 - cl)"
    using s0 assms(3) by (simp add: mult_left_mono)
  then have "py_round (s * (v1 - cl) + of_int il) \<le> py_round (s * (v2 - cl) + of_int il)"
    by (intro py_round_mono) simp
  with assms(4,5) w show ?thesis
    by (simp add: b s_def)
qed

section \<open>The scan of a table\<close>


lemma scan_bands_None:
  assumes "n = i + length bs"
  shows "scan_bands n i bs v = None \<longleftrightarrow>
     (\<forall>b\<in>set (butlast bs). \<not> (Clow b \<le> v \<and> v < Chigh b)) \<and>
     (bs \<noteq> [] \<longrightarrow> \<not> (Clow (last bs) \<le> v \<and> v \<le> Chigh (last bs)))"
  using assms
proof (induction bs arbitrary: i)
  case Nil
  show ?case by simp
next
  case (Cons b rest)
  obtain cl ch il ih where b: "b = (cl, ch, il, ih)"
    by (cases b) auto
  from Cons.prems have n: "n = (i + 1) + length rest"
    by simp
  have last_iff: "int i = int n - 1 \<longleftrightarrow> rest = []"
    using n by auto
  show ?case
    using Cons.IH [OF n] by (auto simp: b last_iff Clow_def Chigh_def)
qed

lemma scan_bands_Some:
  assumes "n = i + length bs" and "scan_bands n i bs v = Some r"
  shows "\<exists>b\<in>set bs. Clow b \<le> v \<and> v \<le> Chigh b \<and> (v < Chigh b \<or> b = last bs) \<and> r = interpolate b v"
  using assms
proof (induction bs arbitrary: i)
  case Nil
  then show ?case by simp
next
  case (Cons b rest)
  obtain cl ch il ih where b: "b = (cl, ch, il, ih)"
    by (cases b) auto
  from Cons.prems have n: "n = (i + 1) + length rest"
    by simp
  have last_iff: "int i = int n - 1 \<longleftrightarrow> rest = []"
    using n by auto
  show ?case
  proof (cases "scan_bands n i (b # rest) v = scan_bands n (i + 1) rest v")
    case True
    with Cons.prems(2) have "scan_bands n (i + 1) rest v = Some r"
      by simp
    from Cons.IH [OF n this] show ?thesis
      by (cases rest) auto
  next
    case False
    then have "Some r = Some (interpolate b v) \<and> Clow b \<le> v \<and> v \<le> Chigh b \<and> (v < Chigh b \<or> rest = [])"
      using Cons.prems(2) by (auto simp: b last_iff Clow_def Chigh_def split: if_splits)
    then show ?thesis
      by auto
  qed
qed

lemma sorted_wrt_last:
  assumes "sorted_wrt P xs" and "x \<in> set xs"
  shows "x = last xs \<or> P x (last xs)"
  using assms by (induction xs) auto

lemma sorted_wrt_trichotomy:
  assumes "sorted_wrt P xs" and "x \<in> set xs" and "y \<in> set xs"
  shows "x = y \<or> P x y \<or> P y x"
  using assms by (induction xs) auto

lemma bands_ok_member:
  assumes "bands_ok bps" and "b \<in> set bps"
  shows "band_ok b" and "Ihigh b \<le> Ihigh (last bps)" and "Chigh b \<le> Chigh (last bps)"
proof -
  from assms show ok: "band_ok b"
    by (simp add: bands_ok_def list_all_iff)
  from assms have l: "last bps \<in> set bps"
    by (simp add: bands_ok_def)
  with assms have okl: "band_ok (last bps)"
    by (simp add: bands_ok_def list_all_iff)
  from assms have "b = last bps \<or> band_before b (last bps)"
    by (simp add: bands_ok_def sorted_wrt_last)
  with okl show "Ihigh b \<le> Ihigh (last bps)" and "Chigh b \<le> Chigh (last bps)"
    by (auto simp: band_before_def band_ok_def)
qed

lemma breakpoints_ok:
  assumes "breakpoints p = Some bps"
  shows "bands_ok bps"
  using assms
  by (auto simp: breakpoints_def bands_ok_def band_ok_def band_before_def
      Clow_def Chigh_def Ilow_def Ihigh_def split: if_splits)

lemma breakpoints_top:
  assumes "breakpoints p = Some bps"
  shows "Ihigh (last bps) \<le> 500" and "p = ''O3'' \<Longrightarrow> Ihigh (last bps) = 300"
  using assms
  by (auto simp: breakpoints_def Ihigh_def split: if_splits)

section \<open>The sub-index of a value\<close>

lemma calculate_aqi_subindex_table:
  assumes "breakpoints p = Some bps"
  shows "calculate_aqi_subindex v p =
     (case scan_bands (length bps) 0 bps (normalized v p) of
        Some r \<Rightarrow> r
      | None \<Rightarrow> Inr (Ihigh (last bps)))"
proof -
  from breakpoints_ok [OF assms] have "bps \<noteq> []"
    by (simp add: bands_ok_def)
  then have "last_Ihigh bps = Inr (Ihigh (last bps))"
    by (simp add: last_Ihigh_def Ihigh_def)
  with assms show ?thesis
    by (simp add: calculate_aqi_subindex_def split: option.split)
qed

lemma scan_bands_in_band:
  "scan_bands (length bps) 0 bps x = None \<longleftrightarrow> \<not> in_band bps x"
  using scan_bands_None [of "length bps" 0 bps x] by (auto simp: in_band_def)

lemma subindex_not_in_band:
  assumes "breakpoints p = Some bps" and "\<not> in_band bps (normalized v p)"
  shows "calculate_aqi_subindex v p = Inr (Ihigh (last bps))"
  using assms by (simp add: calculate_aqi_subindex_table scan_bands_in_band [symmetric])

lemma subindex_in_band:
  assumes "breakpoints p = Some bps" and "in_band bps (normalized v p)"
  shows "\<exists>b\<in>set bps. \<exists>k. Clow b \<le> normalized v p \<and> normalized v p \<le> Chigh b \<and>
     (normalized v p < Chigh b \<or> b = last bps) \<and>
     calculate_aqi_subindex v p = Inr k \<and> interpolate b (normalized v p) = Inr k \<and>
     Ilow b \<le> k \<and> k \<le> Ihigh b"
proof -
  let ?x = "normalized v p"
  from assms(2) obtain r where r: "scan_bands (length bps) 0 bps ?x = Some r"
    using scan_bands_in_band [of bps ?x] by auto
  from scan_bands_Some [OF _ r] obtain b where b: "b \<in> set bps" "Clow b \<le> ?x" "?x \<le> Chigh b"
      "?x < Chigh b \<or> b = last bps" "r = interpolate b ?x"
    by auto
  from bands_ok_member(1) [OF breakpoints_ok [OF assms(1)] b(1)]
  have "Clow b < Chigh b" "Ilow b \<le> Ihigh b"
    by (simp_all add: band_ok_def)
  from interpolate_between [OF this b(2,3)] obtain k
    where k: "interpolate b ?x = Inr k" "Ilow b \<le> k" "k \<le> Ihigh b"
    by auto
  have "calculate_aqi_subindex v p = Inr k"
    using assms(1) r b(5) k(1) by (simp add: calculate_aqi_subindex_table)
  with b k show ?thesis
    by blast
qed

lemma subindex_bounds:
  "\<exists>k. calculate_aqi_subindex v p = Inr k \<and> 0 \<le> k \<and> k \<le> 500 \<and> (p = ''O3'' \<longrightarrow> k \<le> 300)"
proof (cases "breakpoints p")
  case None
  then have "calculate_aqi_subindex v p = Inr 0"
    by (simp add: calculate_aqi_subindex_def)
  moreover from None have "p \<noteq> ''O3''"
    by (auto simp: breakpoints_def)
  ultimately show ?thesis
    by simp
next
  case (Some bps)
  note ok = breakpoints_ok [OF Some]
  then have l: "last bps \<in> set bps"
    by (simp add: bands_ok_def)
  show ?thesis
  proof (cases "in_band bps (normalized v p)")
    case False
    from bands_ok_member(1) [OF ok l] have "0 \<le> Ihigh (last bps)"
      by (simp add: band_ok_def)
    with subindex_not_in_band [OF Some False] breakpoints_top [OF Some] show ?thesis
      by auto
  next
    case True
    from subindex_in_band [OF Some True] obtain b k where b: "b \<in> set bps"
      and k: "calculate_aqi_subindex v p = Inr k" "Ilow b \<le> k" "k \<le> Ihigh b"
      by blast
    from bands_ok_member [OF ok b] have "0 \<le> Ilow b" "Ihigh b \<le> Ihigh (last bps)"
      by (simp_all add: band_ok_def)
    with k breakpoints_top [OF Some] show ?thesis
      by auto
  qed
qed

lemma not_in_band_negative:
  assumes "bands_ok bps" and "x < 0"
  shows "\<not> in_band bps x"
proof -
  have low: "\<not> Clow b \<le> x" if "b \<in> set bps" for b
    using bands_ok_member(1) [OF assms(1) that] assms(2) by (simp add: band_ok_def)
  have "last bps \<in> set bps"
    using assms(1) by (simp add: bands_ok_def)
  from low [OF this] have "\<not> Clow (last bps) \<le> x" .
  moreover have "\<not> Clow b \<le> x" if "b \<in> set (butlast bps)" for b
    using low [OF in_set_butlastD [OF that]] .
  ultimately show ?thesis
    by (auto simp: in_band_def)
qed

lemma not_in_band_above:
  assumes "bands_ok bps" and "Chigh (last bps) < x"
  shows "\<not> in_band bps x"
proof -
  have high: "\<not> x < Chigh b" if "b \<in> set bps" for b
    using bands_ok_member(3) [OF assms(1) that] assms(2) by simp
  have "\<not> x < Chigh b" if "b \<in> set (butlast bps)" for b
    using high [OF in_set_butlastD [OF that]] .
  with assms(2) show ?thesis
    by (auto simp: in_band_def)
qed

lemma not_in_band_gap:
  assumes "bands_ok bps" and "Suc i < length bps"
    and "Chigh (bps ! i) \<le> x" and "x < Clow (bps ! Suc i)"
  shows "\<not> in_band bps x"
proof -
  from assms(1) have sorted: "\<And>j k. j < k \<Longrightarrow> k < length bps \<Longrightarrow> band_before (bps ! j) (bps ! k)"
    and ok: "\<And>j. j < length bps \<Longrightarrow> band_ok (bps ! j)"
    by (simp_all add: bands_ok_def sorted_wrt_iff_nth_less list_all_length)
  have below: "Chigh (bps ! j) \<le> x" if "j \<le> i" for j
  proof (cases "j = i")
    case True
    with assms(3) show ?thesis by simp
  next
    case False
    with that assms(2) sorted [of j i] ok [of i] assms(3) show ?thesis
      by (simp add: band_before_def band_ok_def)
  qed
  have above: "x < Clow (bps ! j)" if "i < j" "j < length bps" for j
  proof (cases "j = Suc i")
    case True
    with assms(4) show ?thesis by simp
  next
    case False
    with that sorted [of "Suc i" j] ok [of "Suc i"] assms(2,4) show ?thesis
      by (simp add: band_before_def band_ok_def)
  qed
  have none: "\<not> (Clow (bps ! j) \<le> x \<and> x < Chigh (bps ! j))" if "j < length bps" for j
    using below [of j] above [of j] that by (cases "j \<le> i") auto
  have "\<not> (Clow b \<le> x \<and> x < Chigh b)" if "b \<in> set (butlast bps)" for b
    using in_set_butlastD [OF that] none by (auto simp: in_set_conv_nth)
  moreover have "bps \<noteq> []"
    using assms(2) by auto
  then have "x < Clow (last bps)"
    using above [of "length bps - 1"] assms(2) by (simp add: last_conv_nth)
  ultimately show ?thesis
    by (auto simp: in_band_def)
qed

section \<open>Values at band boundaries\<close>

text \<open>
  Claim C2: the sub-index of the PM2.5 value 12.0 is 50 and that of 12.1 is 51.
  The code gives 51 at 12.1, and 500 at 12.0: the first band \<open>(0.0, 12.0, 0, 50)\<close> is
  tested with \<^verbatim>\<open>Clow <= value < Chigh\<close>, which leaves its own upper bound out, no later
  band starts before 12.1, and the loop ends without a match. The theorem records what the
  code computes at the two inputs.
\<close>
theorem pm25_boundary_values:
  "calculate_aqi_subindex 12 ''PM2.5'' = Inr 500 \<and>
   calculate_aqi_subindex (121 / 10) ''PM2.5'' = Inr 51"
  by (simp add: calculate_aqi_subindex_def normalized_def breakpoints_def last_Ihigh_def
      py_round_def)

text \<open>
  Claim C4: a raw CO reading of 4400 is divided by 1000 to 4.4, the upper bound of the
  first CO band, and its sub-index is 50. The code divides as said and the value is the
  \<open>Chigh\<close> of the first band \<open>(0.0, 4.4, 0, 50)\<close>, but the half-open test rejects
  it there and the result is the 500 of the last band. The theorem records what the code
  computes.
\<close>
theorem co_4400_subindex:
  "normalized 4400 ''CO'' = 44 / 10 \<and>
   map_option hd (breakpoints ''CO'') = Some (0, 44 / 10, 0, 50) \<and>
   calculate_aqi_subindex 4400 ''CO'' = Inr 500"
  by (simp add: calculate_aqi_subindex_def normalized_def breakpoints_def last_Ihigh_def)

section \<open>Values outside the bands\<close>

text \<open>
  Claim C6: for a parameter with a table the computation never raises, and when the
  normalised value lies outside every band, that is when it is negative, or in a gap
  between a band and the next one (from the \<open>Chigh\<close> of the one, which the half-open
  test leaves out, up to the \<open>Clow\<close> of the next), or above the \<open>Chigh\<close> of the
  last band, the result is the \<open>Ihigh\<close> of the last band.
\<close>
theorem outside_bands_last_Ihigh:
  assumes "breakpoints p = Some bps"
  shows "(\<exists>k. calculate_aqi_subindex v p = Inr k) \<and>
     (normalized v p < 0 \<or>
      (\<exists>i. Suc i < length bps \<and> Chigh (bps ! i) \<le> normalized v p \<and>
           normalized v p < Clow (bps ! Suc i)) \<or>
      Chigh (last bps) < normalized v p
      \<longrightarrow> calculate_aqi_subindex v p = Inr (Ihigh (last bps)))"
proof
  from subindex_bounds [of v p] show "\<exists>k. calculate_aqi_subindex v p = Inr k"
    by blast
next
  note ok = breakpoints_ok [OF assms]
  show "normalized v p < 0 \<or>
      (\<exists>i. Suc i < length bps \<and> Chigh (bps ! i) \<le> normalized v p \<and>
           normalized v p < Clow (bps ! Suc i)) \<or>
      Chigh (last bps) < normalized v p
      \<longrightarrow> calculate_aqi_subindex v p = Inr (Ihigh (last bps))"
  proof
    assume "normalized v p < 0 \<or>
      (\<exists>i. Suc i < length bps \<and> Chigh (bps ! i) \<le> normalized v p \<and>
           normalized v p < Clow (bps ! Suc i)) \<or>
      Chigh (last bps) < normalized v p"
    then have "\<not> in_band bps (normalized v p)"
      using not_in_band_negative [OF ok] not_in_band_gap [OF ok] not_in_band_above [OF ok]
      by blast
    with assms show "calculate_aqi_subindex v p = Inr (Ihigh (last bps))"
      by (rule subindex_not_in_band)
  qed
qed

lemma breakpoints_PM10:
  "breakpoints ''PM10'' = Some
    [(0, 54, 0, 50), (55, 154, 51, 100), (155, 254, 101, 150), (255, 354, 151, 200),
     (355, 424, 201, 300), (425, 504, 301, 400), (505, 604, 401, 500)]"
  by (simp add: breakpoints_def)

text \<open>
  The PM10 value 54.5 lies between the first band, which ends at 54, and the second, which
  starts at 55: its sub-index is 500.
\<close>
theorem outside_bands_last_Ihigh_witness:
  "breakpoints ''PM10'' = Some
    [(0, 54, 0, 50), (55, 154, 51, 100), (155, 254, 101, 150), (255, 354, 151, 200),
     (355, 424, 201, 300), (425, 504, 301, 400), (505, 604, 401, 500)] \<and>
   Chigh (0, 54, 0, 50) \<le> normalized (109 / 2) ''PM10'' \<and>
   normalized (109 / 2) ''PM10'' < Clow (55, 154, 51, 100) \<and>
   calculate_aqi_subindex (109 / 2) ''PM10'' = Inr 500"
proof -
  let ?bps = "[(0, 54, 0, 50), (55, 154, 51, 100), (155, 254, 101, 150), (255, 354, 151, 200),
     (355, 424, 201, 300), (425, 504, 301, 400), (505, 604, 401, 500)] :: band list"
  have gap: "Chigh (?bps ! 0) \<le> normalized (109 / 2) ''PM10'' \<and>
      normalized (109 / 2) ''PM10'' < Clow (?bps ! Suc 0)"
    by (simp add: normalized_def Clow_def Chigh_def)
  then have "\<exists>i. Suc i < length ?bps \<and> Chigh (?bps ! i) \<le> normalized (109 / 2) ''PM10'' \<and>
      normalized (109 / 2) ''PM10'' < Clow (?bps ! Suc i)"
    by (intro exI [of _ 0]) simp
  with outside_bands_last_Ihigh [OF breakpoints_PM10, of "109 / 2"]
  have "calculate_aqi_subindex (109 / 2) ''PM10'' = Inr (Ihigh (last ?bps))"
    by blast
  with gap breakpoints_PM10 show ?thesis
    by (simp add: Ihigh_def)
qed

text \<open>
  Claim C7 says that a negative value yields the index at the lowest bound of the table.
  The lowest index of the PM2.5 table is 0, and the PM2.5 value \<open>-1\<close> yields 500.
\<close>
theorem negative_subindex_counterexample:
  "map_option (\<lambda>bps. Ilow (hd bps)) (breakpoints ''PM2.5'') = Some 0 \<and>
   calculate_aqi_subindex (- 1) ''PM2.5'' = Inr 500"
  by (simp add: calculate_aqi_subindex_def normalized_def breakpoints_def last_Ihigh_def
      Ilow_def)

text \<open>
  Claim C7, amended: an out-of-domain value is not rejected; for every parameter with a
  table, a value above the highest band yields the \<open>Ihigh\<close> of the last band, and a
  negative value yields that same index.
\<close>
theorem out_of_domain_clamped:
  assumes "breakpoints p = Some bps" and "v < 0 \<or> Chigh (last bps) < normalized v p"
  shows "calculate_aqi_subindex v p = Inr (Ihigh (last bps))"
proof -
  note ok = breakpoints_ok [OF assms(1)]
  have "normalized v p < 0" if "v < 0"
    using that by (simp add: normalized_def)
  with assms(2) have "\<not> in_band bps (normalized v p)"
    using not_in_band_negative [OF ok] not_in_band_above [OF ok] by blast
  with assms(1) show ?thesis
    by (rule subindex_not_in_band)
qed

lemma breakpoints_O3:
  "breakpoints ''O3'' = Some
    [(0, 54, 0, 50), (55, 70, 51, 100), (71, 85, 101, 150), (86, 105, 151, 200),
     (106, 200, 201, 300)]"
  by (simp add: breakpoints_def)

text \<open>
  For O3 the values \<open>-3\<close> and 401 (200.5 once halved, above the 200 of the last band)
  both yield 300.
\<close>
theorem out_of_domain_clamped_witness:
  "breakpoints ''O3'' = Some
    [(0, 54, 0, 50), (55, 70, 51, 100), (71, 85, 101, 150), (86, 105, 151, 200),
     (106, 200, 201, 300)] \<and>
   (- 3 :: real) < 0 \<and> calculate_aqi_subindex (- 3) ''O3'' = Inr 300 \<and>
   Chigh (106, 200, 201, 300) < normalized 401 ''O3'' \<and>
   calculate_aqi_subindex 401 ''O3'' = Inr 300"
  using out_of_domain_clamped [OF breakpoints_O3, of "- 3"]
    out_of_domain_clamped [OF breakpoints_O3, of 401] breakpoints_O3
  by (simp add: Chigh_def Ihigh_def normalized_def)

text \<open>
  Claim C10: for every value and every parameter the computation returns an integer from 0
  to 500; for O3 it returns at most 300, which is never in the category Hazardous.
\<close>
theorem subindex_range:
  "(\<exists>k. calculate_aqi_subindex v p = Inr k \<and> 0 \<le> k \<and> k \<le> 500) \<and>
   (\<exists>k. calculate_aqi_subindex v ''O3'' = Inr k \<and> k \<le> 300 \<and>
      fst (get_aqi_category k) \<noteq> ''Hazardous'')"
proof -
  from subindex_bounds [of v "''O3''"] obtain k
    where "calculate_aqi_subindex v ''O3'' = Inr k" "k \<le> 300"
    by auto
  moreover from this have "fst (get_aqi_category k) \<noteq> ''Hazardous''"
    by (simp add: get_aqi_category_def)
  ultimately show ?thesis
    using subindex_bounds [of v p] by blast
qed

section \<open>Monotonicity\<close>

lemma normalized_mono:
  assumes "v1 \<le> v2"
  shows "normalized v1 p \<le> normalized v2 p"
  using assms by (simp add: normalized_def)

text \<open>
  Where the sub-index does not fall: when the normalised \<open>v1\<close> lies in a band or
  above the last band, no value \<open>v2\<close> from \<open>v1\<close> upwards has a smaller sub-index.
\<close>

lemma subindex_monotone_from_band:
  assumes "breakpoints p = Some bps" and "v1 \<le> v2"
    and "in_band bps (normalized v1 p) \<or> Chigh (last bps) < normalized v1 p"
  shows "\<exists>k1 k2. calculate_aqi_subindex v1 p = Inr k1 \<and>
     calculate_aqi_subindex v2 p = Inr k2 \<and> k1 \<le> k2"
proof (cases "in_band bps (normalized v1 p)")
  case False
  let ?x1 = "normalized v1 p" and ?x2 = "normalized v2 p"
  note ok = breakpoints_ok [OF assms(1)]
  from False assms(3) have above: "Chigh (last bps) < ?x1"
    by simp
  have "?x1 \<le> ?x2"
    using assms(2) by (rule normalized_mono)
  with above have "Chigh (last bps) < ?x2"
    by simp
  from subindex_not_in_band [OF assms(1) False]
    subindex_not_in_band [OF assms(1) not_in_band_above [OF ok this]]
  show ?thesis
    by simp
next
  case in1: True
  let ?x1 = "normalized v1 p" and ?x2 = "normalized v2 p"
  note ok = breakpoints_ok [OF assms(1)]
  have x: "?x1 \<le> ?x2"
    using assms(2) by (rule normalized_mono)
  from subindex_in_band [OF assms(1) in1] obtain b1 k1 where b1: "b1 \<in> set bps"
    and in1: "Clow b1 \<le> ?x1" "?x1 \<le> Chigh b1"
    and c1: "calculate_aqi_subindex v1 p = Inr k1" "interpolate b1 ?x1 = Inr k1"
    and k1: "Ilow b1 \<le> k1" "k1 \<le> Ihigh b1"
    by blast
  note ok1 = bands_ok_member [OF ok b1]
  show ?thesis
  proof (cases "in_band bps ?x2")
    case False
    from subindex_not_in_band [OF assms(1) False] c1(1) k1(2) ok1(2) show ?thesis
      by simp
  next
    case True
    from subindex_in_band [OF assms(1) True] obtain b2 k2 where b2: "b2 \<in> set bps"
      and in2: "Clow b2 \<le> ?x2" "?x2 \<le> Chigh b2" "?x2 < Chigh b2 \<or> b2 = last bps"
      and c2: "calculate_aqi_subindex v2 p = Inr k2" "interpolate b2 ?x2 = Inr k2"
      and k2: "Ilow b2 \<le> k2" "k2 \<le> Ihigh b2"
      by blast
    from ok have sorted: "sorted_wrt band_before bps"
      by (simp add: bands_ok_def)
    have "k1 \<le> k2"
    proof -
      consider "b1 = b2" | "band_before b1 b2" | "b1 \<noteq> b2" "band_before b2 b1"
        using sorted_wrt_trichotomy [OF sorted b1 b2] by blast
      then show ?thesis
      proof cases
        case 1
        from ok1(1) have "Clow b1 < Chigh b1" "Ilow b1 \<le> Ihigh b1"
          by (simp_all add: band_ok_def)
        from interpolate_mono [OF this x c1(2)] c2(2) 1 show ?thesis
          by simp
      next
        case 2
        with k1(2) k2(1) show ?thesis
          by (simp add: band_before_def)
      next
        case 3
        from 3(2) in1(1) x in2(2) have "\<not> ?x2 < Chigh b2"
          by (simp add: band_before_def)
        with in2(3) have last: "b2 = last bps"
          by simp
        from sorted_wrt_last [OF sorted b1] 3(1) last have "band_before b1 b2"
          by auto
        with k1(2) k2(1) show ?thesis
          by (simp add: band_before_def)
      qed
    qed
    with c1(1) c2(1) show ?thesis
      by simp
  qed
qed

text \<open>
  Claim C5: for every parameter with a table the sub-index never falls when the value
  rises. The code breaks this inside the range of the table. The PM2.5 value 12.0 is the
  upper bound of the first band, which the half-open test
  \<^verbatim>\<open>Clow <= value < Chigh\<close> leaves out, so it gets the 500 of the last band, while
  the larger value 12.1 starts the second band and gets 51. The theorem records what the
  code computes at the two values.
\<close>

theorem subindex_falls_at_band_bound:
  "(12 :: real) \<le> 121 / 10 \<and> breakpoints ''PM2.5'' \<noteq> None \<and>
   calculate_aqi_subindex 12 ''PM2.5'' = Inr 500 \<and>
   calculate_aqi_subindex (121 / 10) ''PM2.5'' = Inr 51 \<and>
   \<not> (500 :: int) \<le> 51"
  by (simp add: calculate_aqi_subindex_def normalized_def breakpoints_def last_Ihigh_def
      py_round_def)

section \<open>Categories of an index\<close>

lemma category_names:
  "fst (get_aqi_category a) =
     (if a \<le> 50 then ''Good'' else if a \<le> 100 then ''Moderate''
      else if a \<le> 150 then ''Poor'' else if a \<le> 200 then ''Unhealthy''
      else if a \<le> 300 then ''Severe'' else ''Hazardous'')"
proof -
  consider "a \<le> 50" | "51 \<le> a" "a \<le> 100" | "101 \<le> a" "a \<le> 150"
    | "151 \<le> a" "a \<le> 200" | "201 \<le> a" "a \<le> 300" | "301 \<le> a"
    by linarith
  then show ?thesis
  proof cases
    case 1
    then show ?thesis by (simp add: get_aqi_category_def)
  next
    case 2
    then show ?thesis by (simp add: get_aqi_category_def)
  next
    case 3
    then show ?thesis by (simp add: get_aqi_category_def)
  next
    case 4
    then show ?thesis by (simp add: get_aqi_category_def)
  next
    case 5
    then show ?thesis by (simp add: get_aqi_category_def)
  next
    case 6
    then show ?thesis by (simp add: get_aqi_category_def)
  qed
qed


text \<open>
  Claim C8: for every integer from 0 to 1000 exactly one category of the specification
  matches, and it is the one that \<open>get_aqi_category\<close> returns; 50 is Good, 51 Moderate,
  150 Poor, 151 Unhealthy, 300 Severe, 301 Hazardous, and every index above 300 is
  Hazardous.
\<close>
theorem category_exhaustive:
  "(0 \<le> a \<and> a \<le> 1000 \<longrightarrow>
      category_matches (fst (get_aqi_category a)) a \<and>
      (\<forall>c. category_matches c a \<longrightarrow> c = fst (get_aqi_category a))) \<and>
   (300 < a \<longrightarrow> fst (get_aqi_category a) = ''Hazardous'') \<and>
   fst (get_aqi_category 50) = ''Good'' \<and>
   fst (get_aqi_category 51) = ''Moderate'' \<and>
   fst (get_aqi_category 150) = ''Poor'' \<and>
   fst (get_aqi_category 151) = ''Unhealthy'' \<and>
   fst (get_aqi_category 300) = ''Severe'' \<and>
   fst (get_aqi_category 301) = ''Hazardous''"
proof -
  have m: "category_matches (fst (get_aqi_category a)) a" if "0 \<le> a"
    using that unfolding category_names category_matches_def by simp
  have u: "c = fst (get_aqi_category a)" if "category_matches c a" for c
    using that unfolding category_names category_matches_def by auto
  have h: "fst (get_aqi_category a) = ''Hazardous''" if "300 < a"
    using that unfolding category_names by simp
  have "fst (get_aqi_category 50) = ''Good''" "fst (get_aqi_category 51) = ''Moderate''"
    "fst (get_aqi_category 150) = ''Poor''" "fst (get_aqi_category 151) = ''Unhealthy''"
    "fst (get_aqi_category 300) = ''Severe''" "fst (get_aqi_category 301) = ''Hazardous''"
    unfolding category_names by simp_all
  with m u h show ?thesis
    by blast
qed

text \<open>The index 500 lies in the range and above 300; its category is Hazardous.\<close>
theorem category_exhaustive_witness:
  "(0 :: int) \<le> 500 \<and> (500 :: int) \<le> 1000 \<and> (300 :: int) < 500 \<and>
   category_matches (fst (get_aqi_category 500)) 500 \<and>
   fst (get_aqi_category 500) = ''Hazardous''"
proof -
  have range: "(0 :: int) \<le> 500 \<and> (500 :: int) \<le> 1000"
    by simp
  have above: "(300 :: int) < 500"
    by simp
  from category_exhaustive [of 500] range above show ?thesis
    by blast
qed

section \<open>The overall index of a location\<close>

lemma row_subindex_eq:
  "calculate_aqi_subindex (reading_value row) (parameter row) = Inr (row_subindex row)"
  using subindex_bounds [of "reading_value row" "parameter row"]
  by (auto simp: row_subindex_def)

lemma row_subindex_nonneg: "0 \<le> row_subindex row"
  using subindex_bounds [of "reading_value row" "parameter row"]
  by (auto simp: row_subindex_def)

lemma row_subindex_no_table:
  assumes "breakpoints (parameter row) = None"
  shows "row_subindex row = 0"
  using assms by (simp add: row_subindex_def calculate_aqi_subindex_def)

lemma aqi_subindex_map: "aqi_subindex rows = Inr (map row_subindex rows)"
  by (induction rows) (simp_all add: row_subindex_eq)

lemma current_aqi_Max:
  assumes "rows \<noteq> []"
  shows "current_aqi rows = Inr (Max (row_subindex ` set rows))"
proof -
  from assms obtain row rest where rows: "rows = row # rest"
    by (cases rows) auto
  have "fold max (map row_subindex rest) (row_subindex row) =
      Max (set (row_subindex row # map row_subindex rest))"
    by (rule Max.set_eq_fold [symmetric])
  then show ?thesis
    by (simp add: current_aqi_def aqi_subindex_map rows)
qed

lemma aqi_panel_Max:
  assumes "rows \<noteq> []"
  shows "aqi_panel rows =
     Inr (Aqi_Panel (Max (row_subindex ` set rows))
       (fst (get_aqi_category (Max (row_subindex ` set rows))))
       (snd (get_aqi_category (Max (row_subindex ` set rows)))))"
  by (simp add: aqi_panel_def current_aqi_Max [OF assms] split: prod.split)

text \<open>
  Claim C1: for every non-empty list of latest readings, one per parameter or not, the
  overall index is the maximum of the sub-indices of the rows, and the panel shows that
  maximum with its category; when the sub-indices are 80, 40 and 150 the index is 150
  and the category is Poor.
\<close>
theorem overall_aqi_is_max:
  assumes "latest \<noteq> []"
  shows "\<exists>subs.
     map Inr subs = map (\<lambda>row. calculate_aqi_subindex (reading_value row) (parameter row)) latest \<and>
     aqi_subindex latest = Inr subs \<and>
     current_aqi latest = Inr (Max (set subs)) \<and>
     aqi_panel latest =
       Inr (Aqi_Panel (Max (set subs)) (fst (get_aqi_category (Max (set subs))))
         (snd (get_aqi_category (Max (set subs))))) \<and>
     (set subs = {80, 40, 150} \<longrightarrow>
        aqi_panel latest = Inr (Aqi_Panel 150 ''Poor'' (snd (get_aqi_category 150))))"
proof -
  let ?subs = "map row_subindex latest"
  have cells: "map Inr ?subs =
      map (\<lambda>row. calculate_aqi_subindex (reading_value row) (parameter row)) latest"
    by (simp add: row_subindex_eq)
  have col: "aqi_subindex latest = Inr ?subs"
    by (rule aqi_subindex_map)
  have cur: "current_aqi latest = Inr (Max (set ?subs))"
    using current_aqi_Max [OF assms] by simp
  have pan: "aqi_panel latest =
      Inr (Aqi_Panel (Max (set ?subs)) (fst (get_aqi_category (Max (set ?subs))))
        (snd (get_aqi_category (Max (set ?subs)))))"
    using aqi_panel_Max [OF assms] by simp
  have ex: "aqi_panel latest = Inr (Aqi_Panel 150 ''Poor'' (snd (get_aqi_category 150)))"
    if "set ?subs = {80, 40, 150}"
  proof -
    from that have "Max (set ?subs) = 150"
      by simp
    moreover have "fst (get_aqi_category 150) = ''Poor''"
      by (simp add: category_names)
    ultimately show ?thesis
      using pan by simp
  qed
  from cells col cur pan ex show ?thesis
    by blast
qed

text \<open>
  Latest readings of NO2, O3 and PM2.5 with the sub-indices 40, 150 and 80: the panel
  shows 150 and Poor (the mean of the three would be 90).
\<close>
theorem overall_aqi_is_max_witness:
  "[\<lparr>datetime_utc = 3, parameter = ''NO2'', reading_value = 42, unit_name = ''ppb''\<rparr>,
    \<lparr>datetime_utc = 1, parameter = ''O3'', reading_value = 849 / 5, unit_name = ''ppb''\<rparr>,
    \<lparr>datetime_utc = 2, parameter = ''PM2.5'', reading_value = 259 / 10, unit_name = ''ug/m3''\<rparr>]
     \<noteq> [] \<and>
   calculate_aqi_subindex 42 ''NO2'' = Inr 40 \<and>
   calculate_aqi_subindex (849 / 5) ''O3'' = Inr 150 \<and>
   calculate_aqi_subindex (259 / 10) ''PM2.5'' = Inr 80 \<and>
   aqi_panel
     [\<lparr>datetime_utc = 3, parameter = ''NO2'', reading_value = 42, unit_name = ''ppb''\<rparr>,
      \<lparr>datetime_utc = 1, parameter = ''O3'', reading_value = 849 / 5, unit_name = ''ppb''\<rparr>,
      \<lparr>datetime_utc = 2, parameter = ''PM2.5'', reading_value = 259 / 10, unit_name = ''ug/m3''\<rparr>]
     = Inr (Aqi_Panel 150 ''Poor'' (snd (get_aqi_category 150)))"
proof -
  let ?rows = "[\<lparr>datetime_utc = 3, parameter = ''NO2'', reading_value = 42, unit_name = ''ppb''\<rparr>,
    \<lparr>datetime_utc = 1, parameter = ''O3'', reading_value = 849 / 5, unit_name = ''ppb''\<rparr>,
    \<lparr>datetime_utc = 2, parameter = ''PM2.5'', reading_value = 259 / 10, unit_name = ''ug/m3''\<rparr>]"
  have ne: "?rows \<noteq> []"
    by simp
  have no2: "calculate_aqi_subindex 42 ''NO2'' = Inr 40"
    by (simp add: calculate_aqi_subindex_def normalized_def breakpoints_def py_round_def)
  have o3: "calculate_aqi_subindex (849 / 5) ''O3'' = Inr 150"
    by (simp add: calculate_aqi_subindex_def normalized_def breakpoints_def py_round_def)
  have pm: "calculate_aqi_subindex (259 / 10) ''PM2.5'' = Inr 80"
    by (simp add: calculate_aqi_subindex_def normalized_def breakpoints_def py_round_def)
  from overall_aqi_is_max [OF ne] obtain subs where
    cells: "map Inr subs =
      map (\<lambda>row. calculate_aqi_subindex (reading_value row) (parameter row)) ?rows"
    and ex: "set subs = {80, 40, 150} \<longrightarrow>
      aqi_panel ?rows = Inr (Aqi_Panel 150 ''Poor'' (snd (get_aqi_category 150)))"
    by blast
  from cells have "map Inr subs = [Inr 40, Inr 150, Inr 80 :: error + int]"
    by (simp add: no2 o3 pm)
  then have "subs = [40, 150, 80]"
    by (auto simp: map_eq_Cons_conv)
  then have "set subs = {80, 40, 150}"
    by auto
  with ex ne no2 o3 pm show ?thesis
    by blast
qed

section \<open>Parameters without a table\<close>

lemma in_set_not_Nil:
  assumes "x \<in> set xs"
  shows "xs \<noteq> []"
  using assms by auto

text \<open>
  Claim C3 says that a parameter without a table yields no sub-index and that readings of
  such parameters only contribute no sub-index at all. A single reading of the relative
  humidity has the column \<open>[0]\<close>, and the panel shows the index 0 in the category Good.
\<close>
theorem tableless_subindex_counterexample:
  "breakpoints ''Relative Humidity'' = None \<and>
   aqi_subindex
     [\<lparr>datetime_utc = 1, parameter = ''Relative Humidity'', reading_value = 40, unit_name = ''%''\<rparr>]
     = Inr [0] \<and>
   aqi_panel
     [\<lparr>datetime_utc = 1, parameter = ''Relative Humidity'', reading_value = 40, unit_name = ''%''\<rparr>]
     = Inr (Aqi_Panel 0 ''Good'' (snd (get_aqi_category 0)))"
proof -
  have none: "breakpoints ''Relative Humidity'' = None"
    by (simp add: breakpoints_def)
  then have sub: "calculate_aqi_subindex 40 ''Relative Humidity'' = Inr 0"
    by (simp add: calculate_aqi_subindex_def)
  have "fst (get_aqi_category 0) = ''Good''"
    by (simp add: category_names)
  moreover have "aqi_panel
     [\<lparr>datetime_utc = 1, parameter = ''Relative Humidity'', reading_value = 40, unit_name = ''%''\<rparr>]
     = Inr (Aqi_Panel 0 (fst (get_aqi_category 0)) (snd (get_aqi_category 0)))"
    by (simp add: aqi_panel_def current_aqi_def sub case_prod_unfold)
  ultimately show ?thesis
    using none sub by simp
qed

text \<open>
  Claim C3, amended: a parameter without a table yields the sub-index 0, which takes part
  in the maximum like any other. No sub-index is negative, so when a row has a parameter
  with a table the overall index is the maximum over the rows whose parameter has a table;
  rows of parameters without a table only give a column of zeros, the index 0 and the
  category Good.
\<close>
theorem tableless_subindex_zero:
  "(breakpoints p = None \<longrightarrow> calculate_aqi_subindex v p = Inr 0) \<and>
   ((\<exists>row\<in>set latest. breakpoints (parameter row) \<noteq> None) \<longrightarrow>
      current_aqi latest =
        current_aqi (filter (\<lambda>row. breakpoints (parameter row) \<noteq> None) latest)) \<and>
   (others \<noteq> [] \<and> (\<forall>row\<in>set others. breakpoints (parameter row) = None) \<longrightarrow>
      aqi_subindex others = Inr (map (\<lambda>row. 0) others) \<and>
      aqi_panel others = Inr (Aqi_Panel 0 ''Good'' (snd (get_aqi_category 0))))"
proof (intro conjI impI)
  assume "breakpoints p = None"
  then show "calculate_aqi_subindex v p = Inr 0"
    by (simp add: calculate_aqi_subindex_def)
next
  let ?tabled = "filter (\<lambda>row. breakpoints (parameter row) \<noteq> None) latest"
  assume "\<exists>row\<in>set latest. breakpoints (parameter row) \<noteq> None"
  then obtain row where row: "row \<in> set ?tabled"
    by auto
  then have row': "row \<in> set latest"
    by simp
  note ne = in_set_not_Nil [OF row] in_set_not_Nil [OF row']
  have incl: "row_subindex ` set ?tabled \<subseteq> row_subindex ` set latest"
    by auto
  have some: "row_subindex ` set ?tabled \<noteq> {}" "row_subindex ` set latest \<noteq> {}"
    using ne by (simp_all only: image_is_empty set_empty not_False_eq_True)
  have "Max (row_subindex ` set latest) = Max (row_subindex ` set ?tabled)"
  proof (rule antisym)
    show "Max (row_subindex ` set ?tabled) \<le> Max (row_subindex ` set latest)"
      by (rule Max_mono [OF incl some(1)]) simp
  next
    have "s \<le> Max (row_subindex ` set ?tabled)" if "s \<in> row_subindex ` set latest" for s
    proof -
      from that obtain q where q: "q \<in> set latest" "s = row_subindex q"
        by auto
      show ?thesis
      proof (cases "breakpoints (parameter q) = None")
        case True
        then have "s = 0"
          using q(2) by (simp add: row_subindex_no_table)
        also have "0 \<le> row_subindex row"
          by (rule row_subindex_nonneg)
        also have "row_subindex row \<le> Max (row_subindex ` set ?tabled)"
          using row by (intro Max_ge) auto
        finally show ?thesis .
      next
        case False
        with q show ?thesis
          by (intro Max_ge) auto
      qed
    qed
    then show "Max (row_subindex ` set latest) \<le> Max (row_subindex ` set ?tabled)"
      using some(2) by (intro Max.boundedI) simp_all
  qed
  then show "current_aqi latest = current_aqi ?tabled"
    by (simp only: current_aqi_Max [OF ne(1)] current_aqi_Max [OF ne(2)])
next
  assume a: "others \<noteq> [] \<and> (\<forall>row\<in>set others. breakpoints (parameter row) = None)"
  then have zero: "map row_subindex others = map (\<lambda>row. 0) others"
    by (simp add: row_subindex_no_table)
  then show "aqi_subindex others = Inr (map (\<lambda>row. 0) others)"
    by (simp add: aqi_subindex_map)
  from a obtain row where "row \<in> set others"
    by (cases others) auto
  with a have "row_subindex ` set others = {0}"
    by (force simp: row_subindex_no_table)
  then have "Max (row_subindex ` set others) = 0"
    by simp
  moreover have "fst (get_aqi_category 0) = ''Good''"
    by (simp add: category_names)
  ultimately show "aqi_panel others = Inr (Aqi_Panel 0 ''Good'' (snd (get_aqi_category 0)))"
    using a by (simp add: aqi_panel_Max)
qed

text \<open>
  A PM10 reading next to a humidity reading has the index of the PM10 reading alone; the
  humidity reading alone has the index 0.
\<close>
theorem tableless_subindex_zero_witness:
  "breakpoints ''Relative Humidity'' = None \<and>
   breakpoints ''PM10'' \<noteq> None \<and>
   calculate_aqi_subindex 40 ''Relative Humidity'' = Inr 0 \<and>
   current_aqi
     [\<lparr>datetime_utc = 2, parameter = ''PM10'', reading_value = 60, unit_name = ''ug/m3''\<rparr>,
      \<lparr>datetime_utc = 1, parameter = ''Relative Humidity'', reading_value = 40, unit_name = ''%''\<rparr>]
     = current_aqi
     [\<lparr>datetime_utc = 2, parameter = ''PM10'', reading_value = 60, unit_name = ''ug/m3''\<rparr>] \<and>
   aqi_panel
     [\<lparr>datetime_utc = 1, parameter = ''Relative Humidity'', reading_value = 40, unit_name = ''%''\<rparr>]
     = Inr (Aqi_Panel 0 ''Good'' (snd (get_aqi_category 0)))"
proof -
  let ?pm = "\<lparr>datetime_utc = 2, parameter = ''PM10'', reading_value = 60, unit_name = ''ug/m3''\<rparr>"
  let ?rh = "\<lparr>datetime_utc = 1, parameter = ''Relative Humidity'', reading_value = 40, unit_name = ''%''\<rparr>"
  have none: "breakpoints ''Relative Humidity'' = None"
    by (simp add: breakpoints_def)
  have some: "breakpoints ''PM10'' \<noteq> None"
    by (simp add: breakpoints_PM10)
  have h2: "\<exists>row\<in>set [?pm, ?rh]. breakpoints (parameter row) \<noteq> None"
    using some by simp
  have h3: "[?rh] \<noteq> [] \<and> (\<forall>row\<in>set [?rh]. breakpoints (parameter row) = None)"
    using none by simp
  have f: "filter (\<lambda>row. breakpoints (parameter row) \<noteq> None) [?pm, ?rh] = [?pm]"
    using none some by simp
  note t = tableless_subindex_zero [of "''Relative Humidity''" 40 "[?pm, ?rh]" "[?rh]"]
  from t none have "calculate_aqi_subindex 40 ''Relative Humidity'' = Inr 0"
    by blast
  moreover from t h2 have "current_aqi [?pm, ?rh] =
      current_aqi (filter (\<lambda>row. breakpoints (parameter row) \<noteq> None) [?pm, ?rh])"
    by blast
  then have "current_aqi [?pm, ?rh] = current_aqi [?pm]"
    by (simp only: f)
  moreover from t h3 have "aqi_panel [?rh] = Inr (Aqi_Panel 0 ''Good'' (snd (get_aqi_category 0)))"
    by blast
  ultimately show ?thesis
    using none some by blast
qed

section \<open>The latest reading of a parameter\<close>

lemma filter_eq_distinct:
  assumes "distinct ks" and "k \<in> set ks"
  shows "filter (\<lambda>x. x = k) ks = [k]"
  using assms by (induction ks) (auto simp: filter_empty_conv)

lemma last_filter_parameter:
  assumes "p \<in> parameter ` set rows"
  shows "parameter (last (filter (\<lambda>row. parameter row = p) rows)) = p"
proof -
  let ?g = "filter (\<lambda>row. parameter row = p) rows"
  from assms have "?g \<noteq> []"
    by (auto simp: filter_empty_conv)
  then have "last ?g \<in> set ?g"
    by (rule last_in_set)
  then show ?thesis
    by simp
qed

lemma groupby_last_group:
  assumes "p \<in> parameter ` set rows"
  shows "filter (\<lambda>q. parameter q = p) (groupby_last rows) =
     [last (filter (\<lambda>row. parameter row = p) rows)]"
proof -
  let ?keys = "sort (remdups (map parameter rows))"
  let ?f = "\<lambda>k. last (filter (\<lambda>row. parameter row = k) rows)"
  have keys: "distinct ?keys" "set ?keys = parameter ` set rows"
    by simp_all
  have "filter (\<lambda>q. parameter q = p) (map ?f ?keys) =
      map ?f (filter (\<lambda>k. parameter (?f k) = p) ?keys)"
    by (simp add: filter_map comp_def)
  also have "filter (\<lambda>k. parameter (?f k) = p) ?keys = filter (\<lambda>k. k = p) ?keys"
    using keys(2) by (intro filter_cong refl) (simp add: last_filter_parameter)
  also have "\<dots> = [p]"
    using keys assms by (intro filter_eq_distinct) simp_all
  finally show ?thesis
    by (simp add: groupby_last_def)
qed

lemma sorted_last_greatest:
  assumes "sorted (map f xs)" and "x \<in> set xs"
  shows "f x \<le> f (last xs)"
proof -
  from assms(2) have ne: "xs \<noteq> []"
    by (rule in_set_not_Nil)
  from assms(2) have "f x \<in> set (map f xs)"
    by simp
  from sorted_wrt_last [OF assms(1) this]
  have "f x = last (map f xs) \<or> f x \<le> last (map f xs)" .
  then have "f x \<le> last (map f xs)"
    by (rule disjE) simp_all
  moreover from ne have "last (map f xs) = f (last xs)"
    by (rule last_map)
  ultimately show ?thesis
    by (rule ord_le_eq_trans)
qed

text \<open>
  In any arrangement of the rows that is sorted by timestamp, the group of a parameter
  gives the row that is later than every other row of that parameter.
\<close>
lemma groupby_last_latest:
  assumes "sorted (map datetime_utc rows)" and "r \<in> set rows"
    and "\<forall>q\<in>set rows. parameter q = parameter r \<longrightarrow> q = r \<or> datetime_utc q < datetime_utc r"
  shows "filter (\<lambda>q. parameter q = parameter r) (groupby_last rows) = [r]"
proof -
  let ?g = "filter (\<lambda>row. parameter row = parameter r) rows"
  have r: "r \<in> set ?g"
    using assms(2) by simp
  then have "?g \<noteq> []"
    by (rule in_set_not_Nil)
  then have l: "last ?g \<in> set ?g"
    by (rule last_in_set)
  then have l': "last ?g \<in> set rows" "parameter (last ?g) = parameter r"
    by simp_all
  have "sorted (map datetime_utc ?g)"
    using assms(1) by (rule sorted_filter)
  from sorted_last_greatest [OF this r] have le: "datetime_utc r \<le> datetime_utc (last ?g)" .
  from assms(3) l' have "last ?g = r \<or> datetime_utc (last ?g) < datetime_utc r"
    by blast
  with le have eq: "last ?g = r"
    by linarith
  have "parameter r \<in> parameter ` set rows"
    using assms(2) by (rule imageI)
  from groupby_last_group [OF this] eq show ?thesis
    by (simp only:)
qed

text \<open>
  Claim C9: when a reading is later than every other reading of its parameter, the
  aggregation keeps exactly that reading for the parameter, in whatever order the readings
  stand in the input; so of two readings of one parameter with different timestamps the
  later one is kept.
\<close>
theorem latest_data_keeps_later:
  assumes "r \<in> set rs"
    and "\<forall>q\<in>set rs. parameter q = parameter r \<longrightarrow> q = r \<or> datetime_utc q < datetime_utc r"
    and "mset rs' = mset rs"
  shows "filter (\<lambda>q. parameter q = parameter r) (latest_data rs') = [r]"
proof -
  let ?ss = "sort_key datetime_utc rs'"
  from assms(3) have "set rs' = set rs"
    by (rule mset_eq_setD)
  then have set: "set ?ss = set rs"
    by simp
  have "sorted (map datetime_utc ?ss)"
    by (rule sorted_sort_key)
  moreover have "r \<in> set ?ss"
    using assms(1) by (simp only: set)
  moreover have "\<forall>q\<in>set ?ss. parameter q = parameter r \<longrightarrow> q = r \<or> datetime_utc q < datetime_utc r"
    using assms(2) by (simp only: set)
  ultimately show ?thesis
    unfolding latest_data_def by (rule groupby_last_latest)
qed

text \<open>
  Two PM10 readings with the timestamps 9 and 4, in both orders: the reading of timestamp
  9 is kept.
\<close>
theorem latest_data_keeps_later_witness:
  "\<lparr>datetime_utc = 9, parameter = ''PM10'', reading_value = 60, unit_name = ''ug/m3''\<rparr>
     \<in> set [\<lparr>datetime_utc = 9, parameter = ''PM10'', reading_value = 60, unit_name = ''ug/m3''\<rparr>,
             \<lparr>datetime_utc = 4, parameter = ''PM10'', reading_value = 20, unit_name = ''ug/m3''\<rparr>] \<and>
   (4 :: int) < 9 \<and>
   mset [\<lparr>datetime_utc = 4, parameter = ''PM10'', reading_value = 20, unit_name = ''ug/m3''\<rparr>,
         \<lparr>datetime_utc = 9, parameter = ''PM10'', reading_value = 60, unit_name = ''ug/m3''\<rparr>]
     = mset [\<lparr>datetime_utc = 9, parameter = ''PM10'', reading_value = 60, unit_name = ''ug/m3''\<rparr>,
             \<lparr>datetime_utc = 4, parameter = ''PM10'', reading_value = 20, unit_name = ''ug/m3''\<rparr>] \<and>
   filter (\<lambda>q. parameter q = ''PM10'')
     (latest_data
       [\<lparr>datetime_utc = 9, parameter = ''PM10'', reading_value = 60, unit_name = ''ug/m3''\<rparr>,
        \<lparr>datetime_utc = 4, parameter = ''PM10'', reading_value = 20, unit_name = ''ug/m3''\<rparr>])
     = [\<lparr>datetime_utc = 9, parameter = ''PM10'', reading_value = 60, unit_name = ''ug/m3''\<rparr>] \<and>
   filter (\<lambda>q. parameter q = ''PM10'')
     (latest_data
       [\<lparr>datetime_utc = 4, parameter = ''PM10'', reading_value = 20, unit_name = ''ug/m3''\<rparr>,
        \<lparr>datetime_utc = 9, parameter = ''PM10'', reading_value = 60, unit_name = ''ug/m3''\<rparr>])
     = [\<lparr>datetime_utc = 9, parameter = ''PM10'', reading_value = 60, unit_name = ''ug/m3''\<rparr>]"
proof -
  let ?late = "\<lparr>datetime_utc = 9, parameter = ''PM10'', reading_value = 60, unit_name = ''ug/m3''\<rparr>"
  let ?early = "\<lparr>datetime_utc = 4, parameter = ''PM10'', reading_value = 20, unit_name = ''ug/m3''\<rparr>"
  have mem: "?late \<in> set [?late, ?early]"
    by (rule list.set_intros(1))
  have t: "(4 :: int) < 9"
    by simp
  have later: "\<forall>q\<in>set [?late, ?early]. parameter q = parameter ?late \<longrightarrow>
      q = ?late \<or> datetime_utc q < datetime_utc ?late"
  proof (intro ballI impI)
    fix q
    assume "q \<in> set [?late, ?early]"
    then have "q = ?late \<or> q = ?early"
      by (simp only: set_simps insert_iff empty_iff simp_thms)
    then show "q = ?late \<or> datetime_utc q < datetime_utc ?late"
    proof
      assume "q = ?late"
      then show ?thesis ..
    next
      assume "q = ?early"
      then have "datetime_utc q < datetime_utc ?late"
        using t by (simp only: reading.select_convs)
      then show ?thesis ..
    qed
  qed
  have same: "mset [?late, ?early] = mset [?late, ?early]"
    by (rule refl)
  have swapped: "mset [?early, ?late] = mset [?late, ?early]"
    by (simp only: mset.simps add_mset_commute)
  from latest_data_keeps_later [OF mem later same]
  have a: "filter (\<lambda>q. parameter q = ''PM10'') (latest_data [?late, ?early]) = [?late]"
    by (simp only: reading.select_convs)
  from latest_data_keeps_later [OF mem later swapped]
  have b: "filter (\<lambda>q. parameter q = ''PM10'') (latest_data [?early, ?late]) = [?late]"
    by (simp only: reading.select_convs)
  show ?thesis
    by (intro conjI mem t swapped a b)
qed

end
